theory Spec2Isabelle
  imports Main "HOL-Library.Word" "HOL-Library.Multiset"
begin

section \<open>The private key of the BLS signature library (privatekey.cpp)\<close>

text \<open>
  The development embeds \<^verbatim>\<open>src/privatekey.cpp\<close>: the class \<^verbatim>\<open>PrivateKey\<close>, which owns one
  multi-precision integer in secure memory through the pointer \<^verbatim>\<open>keydata\<close>. Secure memory
  is an explicit store, a key is the record holding its pointer, every \<^verbatim>\<open>throw\<close> is a value
  of the error type, and the constructors, the destructor and the operations are functions
  that take the store and, where they change it, return the new one.
\<close>

subsection \<open>Errors\<close>

text \<open>
  The exceptions of the source, by C++ class and message. The last two constructors are not
  exceptions of the source: \<open>relic_no_buffer\<close> is the error the big-integer library raises
  when a number does not fit the buffer it is written to, and \<open>wild_pointer\<close> stands for the
  undefined behaviour of reading or writing through a pointer to storage that is not
  allocated.
\<close>

datatype error =
    invalid_argument string
  | length_error string
  | runtime_error string
  | relic_no_buffer
  | wild_pointer

definition err_invalid_size :: error where
  "err_invalid_size = invalid_argument ''PrivateKey::FromBytes: Invalid size''"

definition err_not_less_than_order :: error where
  "err_not_less_than_order =
     invalid_argument ''PrivateKey byte data must be less than the group order''"

definition err_no_keys :: error where
  "err_no_keys = length_error ''Number of private keys must be at least 1''"

definition err_not_initialized :: error where
  "err_not_initialized = runtime_error ''PrivateKey::CheckKeyData keydata not initialized''"

definition err_buffer_invalid :: error where
  "err_buffer_invalid = runtime_error ''PrivateKey::Serialize buffer invalid''"

subsection \<open>The big-integer interface\<close>

type_synonym byte = "8 word"

text \<open>
  A \<^verbatim>\<open>bn_t\<close> of the arithmetic library. Every number this file handles is read from bytes,
  zero, a sum or a remainder, hence never negative: a natural number.
\<close>

type_synonym bn = nat

text \<open>
  Modelled from the spec: \<^verbatim>\<open>PRIVATE_KEY_SIZE\<close>, declared in the header of the class, is
  the fixed canonical byte width 32.
\<close>

definition PRIVATE_KEY_SIZE :: nat where
  "PRIVATE_KEY_SIZE = 32"

text \<open>
  Modelled from the spec: \<^verbatim>\<open>g1_get_ord\<close> of the arithmetic library gives the group-order
  constant \<open>r\<close> of the scalar field. The library is built for the curve BLS12-381, whose
  255-bit prime order this is.
\<close>

definition g1_get_ord :: bn where
  "g1_get_ord = 52435875175126190479447740508185965837690552500527637822603658699938581184513"

text \<open>
  Modelled from the spec: the big-integer operations of the arithmetic library (read and
  write a fixed-width big-endian buffer, add, modular reduce, compare, zero-test, copy).
  \<^verbatim>\<open>bn_read_bin\<close> reads the first \<open>len\<close> bytes as a big-endian unsigned integer.
\<close>

definition bn_read_bin :: "byte list \<Rightarrow> nat \<Rightarrow> bn" where
  "bn_read_bin bin len = foldl (\<lambda>acc b. acc * 256 + unat b) 0 (take len bin)"

text \<open>The \<open>len\<close> big-endian bytes of a number, the most significant first, zero padded.\<close>

fun be_bytes :: "nat \<Rightarrow> bn \<Rightarrow> byte list" where
  "be_bytes 0 a = []"
| "be_bytes (Suc len) a = be_bytes len (a div 256) @ [of_nat (a mod 256)]"

text \<open>
  Modelled from the spec: \<^verbatim>\<open>bn_write_bin\<close> writes a number into the first \<open>len\<close> bytes of
  a buffer, big-endian and zero padded, and raises the library's error when the number
  needs more than \<open>len\<close> bytes. A buffer shorter than \<open>len\<close> is written out of bounds.
\<close>

definition bn_write_bin :: "byte list \<Rightarrow> nat \<Rightarrow> bn \<Rightarrow> error + byte list" where
  "bn_write_bin bin len a =
     (if length bin < len then Inl wild_pointer
      else if 256 ^ len \<le> a then Inl relic_no_buffer
      else Inr (be_bytes len a @ drop len bin))"

text \<open>
  Modelled from the spec: the other big-integer operations of the arithmetic library, on
  numbers that are not negative: the remainder of the division by the modulus, the sum,
  the comparison with its three results, the zero test and the constant zero.
\<close>

definition bn_mod_basic :: "bn \<Rightarrow> bn \<Rightarrow> bn" where
  "bn_mod_basic a m = a mod m"

definition bn_add :: "bn \<Rightarrow> bn \<Rightarrow> bn" where
  "bn_add a b = a + b"

definition RLC_LT :: int where "RLC_LT = - 1"
definition RLC_EQ :: int where "RLC_EQ = 0"
definition RLC_GT :: int where "RLC_GT = 1"

definition bn_cmp :: "bn \<Rightarrow> bn \<Rightarrow> int" where
  "bn_cmp a b = (if a < b then RLC_LT else if a = b then RLC_EQ else RLC_GT)"

definition bn_is_zero :: "bn \<Rightarrow> bool" where
  "bn_is_zero a = (a = 0)"

definition bn_zero :: bn where
  "bn_zero = 0"

subsection \<open>Secure memory and the key\<close>

text \<open>
  Secure memory: the cell at address \<open>a\<close> holds \<open>Some v\<close> while a number is allocated there
  and \<open>None\<close> once it is released. Allocation takes the next address, which no pointer
  made before can name.
\<close>

type_synonym secmem = "bn option list"

definition cell :: "secmem \<Rightarrow> nat \<Rightarrow> bn option" where
  "cell s a = (if a < length s then s ! a else None)"

text \<open>The class: its one member is the pointer \<^verbatim>\<open>bn_t *keydata\<close>, \<open>None\<close> for \<^verbatim>\<open>nullptr\<close>.\<close>

record PrivateKey =
  keydata :: "nat option"

text \<open>\<^verbatim>\<open>*keydata\<close> read, and \<^verbatim>\<open>*keydata\<close> rewritten in place by an operation of the library.\<close>

definition load :: "secmem \<Rightarrow> PrivateKey \<Rightarrow> error + bn" where
  "load s k =
     (case keydata k of
        None \<Rightarrow> Inl wild_pointer
      | Some a \<Rightarrow> (case cell s a of None \<Rightarrow> Inl wild_pointer | Some v \<Rightarrow> Inr v))"

definition modify :: "secmem \<Rightarrow> PrivateKey \<Rightarrow> (bn \<Rightarrow> bn) \<Rightarrow> error + secmem" where
  "modify s k f =
     (case keydata k of
        None \<Rightarrow> Inl wild_pointer
      | Some a \<Rightarrow>
          (case cell s a of
             None \<Rightarrow> Inl wild_pointer
           | Some v \<Rightarrow> Inr (s[a := Some (f v)])))"

text \<open>
  \<^verbatim>\<open>AllocateKeyData\<close>, called by the constructors on the object under construction, whose
  pointer is still null: a new cell, set to zero.
\<close>

definition AllocateKeyData :: "secmem \<Rightarrow> PrivateKey \<times> secmem" where
  "AllocateKeyData s = (\<lparr>keydata = Some (length s)\<rparr>, s @ [Some bn_zero])"

definition CheckKeyData :: "PrivateKey \<Rightarrow> error + unit" where
  "CheckKeyData k = (if keydata k = None then Inl err_not_initialized else Inr ())"

text \<open>\<^verbatim>\<open>DeallocateKeyData\<close>, which is also the destructor: returns the key and the store.\<close>

definition DeallocateKeyData :: "secmem \<Rightarrow> PrivateKey \<Rightarrow> PrivateKey \<times> secmem" where
  "DeallocateKeyData s k =
     (case keydata k of
        None \<Rightarrow> (k, s)
      | Some a \<Rightarrow> (k\<lparr>keydata := None\<rparr>, s[a := None]))"

subsection \<open>Construction from bytes and serialization\<close>

text \<open>
  \<^verbatim>\<open>PrivateKey::FromBytes\<close>. The local key \<open>k\<close> is default constructed; when the function
  throws after that, unwinding runs the destructor of \<open>k\<close>.
\<close>

definition FromBytes :: "secmem \<Rightarrow> byte list \<Rightarrow> bool \<Rightarrow> (error + PrivateKey) \<times> secmem" where
  "FromBytes s bytes modOrder =
     (if length bytes \<noteq> PRIVATE_KEY_SIZE then (Inl err_invalid_size, s)
      else
        (case AllocateKeyData s of
           (k, s1) \<Rightarrow>
             (case modify s1 k (\<lambda>_. bn_read_bin bytes PRIVATE_KEY_SIZE) of
                Inl e \<Rightarrow> (Inl e, snd (DeallocateKeyData s1 k))
              | Inr s2 \<Rightarrow>
                  (let ord = g1_get_ord in
                   if modOrder then
                     (case modify s2 k (\<lambda>a. bn_mod_basic a ord) of
                        Inl e \<Rightarrow> (Inl e, snd (DeallocateKeyData s2 k))
                      | Inr s3 \<Rightarrow> (Inr k, s3))
                   else
                     (case load s2 k of
                        Inl e \<Rightarrow> (Inl e, snd (DeallocateKeyData s2 k))
                      | Inr a \<Rightarrow>
                          if bn_cmp a ord > 0
                          then (Inl err_not_less_than_order, snd (DeallocateKeyData s2 k))
                          else (Inr k, s2))))))"

text \<open>\<^verbatim>\<open>PrivateKey::FromByteVector\<close>: the same on the bytes of a vector.\<close>

definition FromByteVector :: "secmem \<Rightarrow> byte list \<Rightarrow> bool \<Rightarrow> (error + PrivateKey) \<times> secmem" where
  "FromByteVector s bytes modOrder = FromBytes s bytes modOrder"

text \<open>
  \<^verbatim>\<open>PrivateKey::Serialize(uint8_t *buffer)\<close>: the buffer is \<open>None\<close> for a null pointer, else
  the bytes it points to; the result is the buffer after the call.
\<close>

definition Serialize :: "secmem \<Rightarrow> PrivateKey \<Rightarrow> byte list option \<Rightarrow> error + byte list" where
  "Serialize s k buffer =
     (case buffer of
        None \<Rightarrow> Inl err_buffer_invalid
      | Some bin \<Rightarrow>
          (case CheckKeyData k of
             Inl e \<Rightarrow> Inl e
           | Inr _ \<Rightarrow>
               (case load s k of
                  Inl e \<Rightarrow> Inl e
                | Inr v \<Rightarrow> bn_write_bin bin PRIVATE_KEY_SIZE v)))"

text \<open>\<^verbatim>\<open>PrivateKey::Serialize()\<close>: a vector of 32 zero bytes, filled by the function above.\<close>

definition Serialize_vec :: "secmem \<Rightarrow> PrivateKey \<Rightarrow> error + byte list" where
  "Serialize_vec s k = Serialize s k (Some (replicate PRIVATE_KEY_SIZE 0))"

subsection \<open>Constructors and assignment\<close>

text \<open>\<^verbatim>\<open>PrivateKey::PrivateKey()\<close>.\<close>

definition PrivateKey_default :: "secmem \<Rightarrow> PrivateKey \<times> secmem" where
  "PrivateKey_default s = AllocateKeyData s"

text \<open>\<^verbatim>\<open>bn_copy(*dst.keydata, *src.keydata)\<close>.\<close>

definition bn_copy :: "secmem \<Rightarrow> PrivateKey \<Rightarrow> PrivateKey \<Rightarrow> error + secmem" where
  "bn_copy s dst src =
     (case load s src of
        Inl e \<Rightarrow> Inl e
      | Inr v \<Rightarrow> modify s dst (\<lambda>_. v))"

text \<open>\<^verbatim>\<open>PrivateKey::PrivateKey(const PrivateKey &privateKey)\<close>.\<close>

definition PrivateKey_copy :: "secmem \<Rightarrow> PrivateKey \<Rightarrow> (error + PrivateKey) \<times> secmem" where
  "PrivateKey_copy s privateKey =
     (case CheckKeyData privateKey of
        Inl e \<Rightarrow> (Inl e, s)
      | Inr _ \<Rightarrow>
          (case AllocateKeyData s of
             (this, s1) \<Rightarrow>
               (case bn_copy s1 this privateKey of
                  Inl e \<Rightarrow> (Inl e, s1)
                | Inr s2 \<Rightarrow> (Inr this, s2))))"

text \<open>
  \<^verbatim>\<open>PrivateKey::PrivateKey(PrivateKey &&k)\<close>: the new key takes the pointer, and \<open>k\<close> is
  left with null. The result is the new key and \<open>k\<close> after the move.
\<close>

definition PrivateKey_move :: "PrivateKey \<Rightarrow> PrivateKey \<times> PrivateKey" where
  "PrivateKey_move k = (\<lparr>keydata = keydata k\<rparr>, k\<lparr>keydata := None\<rparr>)"

text \<open>\<^verbatim>\<open>PrivateKey::operator=(const PrivateKey& other)\<close>.\<close>

definition assign_copy :: "secmem \<Rightarrow> PrivateKey \<Rightarrow> PrivateKey \<Rightarrow> (error + unit) \<times> secmem" where
  "assign_copy s this other =
     (case CheckKeyData this of
        Inl e \<Rightarrow> (Inl e, s)
      | Inr _ \<Rightarrow>
          (case CheckKeyData other of
             Inl e \<Rightarrow> (Inl e, s)
           | Inr _ \<Rightarrow>
               (case bn_copy s this other of
                  Inl e \<Rightarrow> (Inl e, s)
                | Inr s1 \<Rightarrow> (Inr (), s1))))"

text \<open>
  \<^verbatim>\<open>PrivateKey::operator=(PrivateKey&& other)\<close>. The flag tells whether \<open>other\<close> is the
  object assigned to; the member that \<^verbatim>\<open>std::exchange\<close> reads is then the one that
  \<^verbatim>\<open>DeallocateKeyData\<close> has just set to null. The result is the assigned key and \<open>other\<close>
  after the move, which are one object when the flag holds.
\<close>

definition assign_move ::
  "secmem \<Rightarrow> PrivateKey \<Rightarrow> PrivateKey \<Rightarrow> bool \<Rightarrow> (PrivateKey \<times> PrivateKey) \<times> secmem" where
  "assign_move s this other same_object =
     (case DeallocateKeyData s this of
        (this1, s1) \<Rightarrow>
          (let other1 = (if same_object then this1 else other);
               taken = keydata other1;
               other2 = other1\<lparr>keydata := None\<rparr>;
               this2 = (if same_object then other2 else this1)\<lparr>keydata := taken\<rparr>
           in ((this2, if same_object then this2 else other2), s1)))"

subsection \<open>The curve arithmetic and the group elements\<close>

text \<open>
  The curve arithmetic of the library is a parameter: the generators, the scalar
  multiplications of the two groups, and the map of a message and a domain separation tag
  to a point of the second group.
\<close>

record ('g1, 'g2) curve =
  g1_get_gen :: 'g1
  g1_mul :: "'g1 \<Rightarrow> bn \<Rightarrow> 'g1"
  g2_get_gen :: 'g2
  g2_mul :: "'g2 \<Rightarrow> bn \<Rightarrow> 'g2"
  ep2_map_dst :: "byte list \<Rightarrow> byte list \<Rightarrow> 'g2"

text \<open>
  Modelled from the spec: the library's fixed-generator scalar multiplications
  \<^verbatim>\<open>g1_mul_gen\<close> and \<^verbatim>\<open>g2_mul_gen\<close> compute \<open>scalar * Generator\<close>.
\<close>

definition g1_mul_gen :: "('g1, 'g2) curve \<Rightarrow> bn \<Rightarrow> 'g1" where
  "g1_mul_gen c k = g1_mul c (g1_get_gen c) k"

definition g2_mul_gen :: "('g1, 'g2) curve \<Rightarrow> bn \<Rightarrow> 'g2" where
  "g2_mul_gen c k = g2_mul c (g2_get_gen c) k"

text \<open>
  Modelled from the spec: the classes \<^verbatim>\<open>G1Element\<close> and \<^verbatim>\<open>G2Element\<close>, defined in
  another file of the repository, are opaque values with a construction from the native
  representation (\<^verbatim>\<open>FromNative\<close>) and an export to it (\<^verbatim>\<open>ToNative\<close>); their
  \<^verbatim>\<open>Generator\<close> is the element of the library's generator.
\<close>

datatype 'p G1Element = G1_FromNative (G1_ToNative: 'p)

datatype 'p G2Element = G2_FromNative (G2_ToNative: 'p)

definition G1_Generator :: "('g1, 'g2) curve \<Rightarrow> 'g1 G1Element" where
  "G1_Generator c = G1_FromNative (g1_get_gen c)"

definition G2_Generator :: "('g1, 'g2) curve \<Rightarrow> 'g2 G2Element" where
  "G2_Generator c = G2_FromNative (g2_get_gen c)"

subsection \<open>Operations on the scalar\<close>

definition GetG1Element :: "('g1, 'g2) curve \<Rightarrow> secmem \<Rightarrow> PrivateKey \<Rightarrow> error + 'g1 G1Element" where
  "GetG1Element c s k =
     (case CheckKeyData k of
        Inl e \<Rightarrow> Inl e
      | Inr _ \<Rightarrow>
          (case load s k of
             Inl e \<Rightarrow> Inl e
           | Inr v \<Rightarrow> Inr (G1_FromNative (g1_mul_gen c v))))"

definition GetG2Element :: "('g1, 'g2) curve \<Rightarrow> secmem \<Rightarrow> PrivateKey \<Rightarrow> error + 'g2 G2Element" where
  "GetG2Element c s k =
     (case CheckKeyData k of
        Inl e \<Rightarrow> Inl e
      | Inr _ \<Rightarrow>
          (case load s k of
             Inl e \<Rightarrow> Inl e
           | Inr v \<Rightarrow> Inr (G2_FromNative (g2_mul_gen c v))))"

text \<open>\<^verbatim>\<open>operator*(const G1Element &a, const PrivateKey &k)\<close> and its mirror image.\<close>

definition G1Element_times ::
  "('g1, 'g2) curve \<Rightarrow> secmem \<Rightarrow> 'g1 G1Element \<Rightarrow> PrivateKey \<Rightarrow> error + 'g1 G1Element" where
  "G1Element_times c s a k =
     (case CheckKeyData k of
        Inl e \<Rightarrow> Inl e
      | Inr _ \<Rightarrow>
          (case load s k of
             Inl e \<Rightarrow> Inl e
           | Inr v \<Rightarrow> Inr (G1_FromNative (g1_mul c (G1_ToNative a) v))))"

definition PrivateKey_times_G1 ::
  "('g1, 'g2) curve \<Rightarrow> secmem \<Rightarrow> PrivateKey \<Rightarrow> 'g1 G1Element \<Rightarrow> error + 'g1 G1Element" where
  "PrivateKey_times_G1 c s k a = G1Element_times c s a k"

text \<open>\<^verbatim>\<open>operator*(const G2Element &a, const PrivateKey &k)\<close> and its mirror image.\<close>

definition G2Element_times ::
  "('g1, 'g2) curve \<Rightarrow> secmem \<Rightarrow> 'g2 G2Element \<Rightarrow> PrivateKey \<Rightarrow> error + 'g2 G2Element" where
  "G2Element_times c s a k =
     (case CheckKeyData k of
        Inl e \<Rightarrow> Inl e
      | Inr _ \<Rightarrow>
          (case load s k of
             Inl e \<Rightarrow> Inl e
           | Inr v \<Rightarrow> Inr (G2_FromNative (g2_mul c (G2_ToNative a) v))))"

definition PrivateKey_times_G2 ::
  "('g1, 'g2) curve \<Rightarrow> secmem \<Rightarrow> PrivateKey \<Rightarrow> 'g2 G2Element \<Rightarrow> error + 'g2 G2Element" where
  "PrivateKey_times_G2 c s k a = G2Element_times c s a k"

definition GetG2Power ::
  "('g1, 'g2) curve \<Rightarrow> secmem \<Rightarrow> PrivateKey \<Rightarrow> 'g2 G2Element \<Rightarrow> error + 'g2 G2Element" where
  "GetG2Power c s k element =
     (case CheckKeyData k of
        Inl e \<Rightarrow> Inl e
      | Inr _ \<Rightarrow>
          (case load s k of
             Inl e \<Rightarrow> Inl e
           | Inr v \<Rightarrow> Inr (G2_FromNative (g2_mul c (G2_ToNative element) v))))"

text \<open>
  The loop of \<^verbatim>\<open>PrivateKey::Aggregate\<close> over the keys after the first: the key is
  checked, added to \<open>ret\<close> in place, and \<open>ret\<close> is reduced in place.
\<close>

fun Aggregate_loop ::
  "bn \<Rightarrow> PrivateKey \<Rightarrow> PrivateKey list \<Rightarrow> secmem \<Rightarrow> (error + unit) \<times> secmem" where
  "Aggregate_loop order ret [] s = (Inr (), s)"
| "Aggregate_loop order ret (p # ps) s =
     (case CheckKeyData p of
        Inl e \<Rightarrow> (Inl e, s)
      | Inr _ \<Rightarrow>
          (case load s p of
             Inl e \<Rightarrow> (Inl e, s)
           | Inr b \<Rightarrow>
               (case modify s ret (\<lambda>a. bn_add a b) of
                  Inl e \<Rightarrow> (Inl e, s)
                | Inr s1 \<Rightarrow>
                    (case modify s1 ret (\<lambda>a. bn_mod_basic a order) of
                       Inl e \<Rightarrow> (Inl e, s1)
                     | Inr s2 \<Rightarrow> Aggregate_loop order ret ps s2))))"

text \<open>
  \<^verbatim>\<open>PrivateKey::Aggregate\<close>. The local key \<open>ret\<close> is a copy of the first key; when the
  loop throws, unwinding runs the destructor of \<open>ret\<close>.
\<close>

definition Aggregate :: "secmem \<Rightarrow> PrivateKey list \<Rightarrow> (error + PrivateKey) \<times> secmem" where
  "Aggregate s privateKeys =
     (case privateKeys of
        [] \<Rightarrow> (Inl err_no_keys, s)
      | first # rest \<Rightarrow>
          (let order = g1_get_ord in
           case PrivateKey_copy s first of
             (Inl e, s1) \<Rightarrow> (Inl e, s1)
           | (Inr ret, s1) \<Rightarrow>
               (case CheckKeyData ret of
                  Inl e \<Rightarrow> (Inl e, snd (DeallocateKeyData s1 ret))
                | Inr _ \<Rightarrow>
                    (case Aggregate_loop order ret rest s1 of
                       (Inl e, s2) \<Rightarrow> (Inl e, snd (DeallocateKeyData s2 ret))
                     | (Inr _, s2) \<Rightarrow> (Inr ret, s2)))))"

definition IsZero :: "secmem \<Rightarrow> PrivateKey \<Rightarrow> error + bool" where
  "IsZero s k =
     (case CheckKeyData k of
        Inl e \<Rightarrow> Inl e
      | Inr _ \<Rightarrow>
          (case load s k of
             Inl e \<Rightarrow> Inl e
           | Inr v \<Rightarrow> Inr (bn_is_zero v)))"

text \<open>\<^verbatim>\<open>operator==\<close> and \<^verbatim>\<open>operator!=\<close> on two keys.\<close>

definition PrivateKey_equal :: "secmem \<Rightarrow> PrivateKey \<Rightarrow> PrivateKey \<Rightarrow> error + bool" where
  "PrivateKey_equal s a b =
     (case CheckKeyData a of
        Inl e \<Rightarrow> Inl e
      | Inr _ \<Rightarrow>
          (case CheckKeyData b of
             Inl e \<Rightarrow> Inl e
           | Inr _ \<Rightarrow>
               (case load s a of
                  Inl e \<Rightarrow> Inl e
                | Inr x \<Rightarrow>
                    (case load s b of
                       Inl e \<Rightarrow> Inl e
                     | Inr y \<Rightarrow> Inr (bn_cmp x y = RLC_EQ)))))"

definition PrivateKey_not_equal :: "secmem \<Rightarrow> PrivateKey \<Rightarrow> PrivateKey \<Rightarrow> error + bool" where
  "PrivateKey_not_equal s a b =
     (case PrivateKey_equal s a b of
        Inl e \<Rightarrow> Inl e
      | Inr r \<Rightarrow> Inr (\<not> r))"

text \<open>
  \<^verbatim>\<open>PrivateKey::SignG2\<close>: the message and the tag are the bytes that the two pointers and
  lengths of the source delimit.
\<close>

definition SignG2 ::
  "('g1, 'g2) curve \<Rightarrow> secmem \<Rightarrow> PrivateKey \<Rightarrow> byte list \<Rightarrow> byte list \<Rightarrow> error + 'g2 G2Element" where
  "SignG2 c s k msg dst =
     (case CheckKeyData k of
        Inl e \<Rightarrow> Inl e
      | Inr _ \<Rightarrow>
          (case load s k of
             Inl e \<Rightarrow> Inl e
           | Inr v \<Rightarrow> Inr (G2_FromNative (g2_mul c (ep2_map_dst c msg dst) v))))"

subsection \<open>Notions of the specification and example data\<close>

text \<open>
  Invariant I1 for a key in a store: when its storage is present, the stored scalar is
  strictly less than the group order.
\<close>

definition I1 :: "secmem \<Rightarrow> PrivateKey \<Rightarrow> bool" where
  "I1 s k =
     (case keydata k of
        None \<Rightarrow> True
      | Some a \<Rightarrow> (case cell s a of None \<Rightarrow> True | Some v \<Rightarrow> v < g1_get_ord))"

text \<open>
  A valid key of the specification, in a store: its storage is present and its scalar is
  below the group order. The scalar of a key, zero when the storage is absent.
\<close>

definition valid_key :: "secmem \<Rightarrow> PrivateKey \<Rightarrow> bool" where
  "valid_key s k = (case load s k of Inl e \<Rightarrow> False | Inr v \<Rightarrow> v < g1_get_ord)"

definition scalar :: "secmem \<Rightarrow> PrivateKey \<Rightarrow> bn" where
  "scalar s k = (case load s k of Inl e \<Rightarrow> 0 | Inr v \<Rightarrow> v)"

text \<open>
  A key owns its storage or has none: its pointer is null or names an allocated cell. The
  class keeps this of every key it makes.
\<close>

definition owned :: "secmem \<Rightarrow> PrivateKey \<Rightarrow> bool" where
  "owned s k = (case keydata k of None \<Rightarrow> True | Some a \<Rightarrow> cell s a \<noteq> None)"

text \<open>Decoding a buffer and encoding the key that results.\<close>

definition FromBytes_then_Serialize :: "secmem \<Rightarrow> byte list \<Rightarrow> bool \<Rightarrow> error + byte list" where
  "FromBytes_then_Serialize s bytes modOrder =
     (case FromBytes s bytes modOrder of
        (Inl e, s') \<Rightarrow> Inl e
      | (Inr k, s') \<Rightarrow> Serialize_vec s' k)"

text \<open>The 32 big-endian bytes of the group order, and of the numbers zero and two.\<close>

definition order_bytes :: "byte list" where
  "order_bytes =
     [0x73, 0xed, 0xa7, 0x53, 0x29, 0x9d, 0x7d, 0x48, 0x33, 0x39, 0xd8, 0x08, 0x09, 0xa1, 0xd8, 0x05,
      0x53, 0xbd, 0xa4, 0x02, 0xff, 0xfe, 0x5b, 0xfe, 0xff, 0xff, 0xff, 0xff, 0x00, 0x00, 0x00, 0x01]"


definition two_bytes :: "byte list" where
  "two_bytes =
     [0, 0, 0, 0, 0, 0, 0, 0, 0, 0, 0, 0, 0, 0, 0, 0, 0, 0, 0, 0, 0, 0, 0, 0, 0, 0, 0, 0, 0, 0, 0, 2]"

text \<open>
  A store of three cells: a key of scalar \<open>r - 1\<close>, a released cell, and a key of scalar 2;
  and the key whose pointer is a given address.
\<close>

definition example_store :: secmem where
  "example_store = [Some (g1_get_ord - 1), None, Some 2]"

definition key_at :: "nat \<Rightarrow> PrivateKey" where
  "key_at a = \<lparr>keydata = Some a\<rparr>"

text \<open>
  Modelled from the spec: the curve arithmetic of the library, two additively written
  groups of the same prime order, as a reference instance for concrete inputs. Each group
  is the integers modulo the group order under addition, generated by 1, so that scaling
  is multiplication modulo the order; a message and a tag are mapped to a number that is
  not zero.
\<close>

definition ref_curve :: "(nat, nat) curve" where
  "ref_curve =
     \<lparr>g1_get_gen = 1,
      g1_mul = (\<lambda>p k. p * k mod g1_get_ord),
      g2_get_gen = 1,
      g2_mul = (\<lambda>p k. p * k mod g1_get_ord),
      ep2_map_dst =
        (\<lambda>msg dst. Suc (bn_read_bin (dst @ msg) (length (dst @ msg)) mod (g1_get_ord - 1)))\<rparr>"

section \<open>Properties\<close>

subsection \<open>Bytes and numbers\<close>

lemma g1_get_ord_pos: "0 < g1_get_ord"
  by (simp add: g1_get_ord_def)

lemma g1_get_ord_fits: "g1_get_ord < 256 ^ PRIVATE_KEY_SIZE"
  by (simp add: g1_get_ord_def PRIVATE_KEY_SIZE_def)

lemma order_bytes_value: "bn_read_bin order_bytes PRIVATE_KEY_SIZE = g1_get_ord"
  by (simp add: bn_read_bin_def order_bytes_def PRIVATE_KEY_SIZE_def g1_get_ord_def)

lemma order_bytes_length: "length order_bytes = PRIVATE_KEY_SIZE"
  by (simp add: order_bytes_def PRIVATE_KEY_SIZE_def)

lemma length_be_bytes [simp]: "length (be_bytes len a) = len"
  by (induction len arbitrary: a) simp_all

lemma bn_read_bin_snoc:
  "bn_read_bin (bs @ [b]) (Suc (length bs)) = bn_read_bin bs (length bs) * 256 + unat b"
  by (simp add: bn_read_bin_def)

lemma bn_read_bin_be_bytes: "bn_read_bin (be_bytes len a) len = a mod 256 ^ len"
proof (induction len arbitrary: a)
  case 0
  show ?case by (simp add: bn_read_bin_def)
next
  case (Suc len)
  have "bn_read_bin (be_bytes (Suc len) a) (Suc len)
      = bn_read_bin (be_bytes len (a div 256)) len * 256 + unat (of_nat (a mod 256) :: byte)"
    using bn_read_bin_snoc [of "be_bytes len (a div 256)" "of_nat (a mod 256)"] by simp
  also have "unat (of_nat (a mod 256) :: byte) = a mod 256"
    by (simp add: unat_of_nat)
  also have "bn_read_bin (be_bytes len (a div 256)) len = (a div 256) mod 256 ^ len"
    by (rule Suc.IH)
  finally show ?case
    by (simp add: mod_mult2_eq mult.commute)
qed

lemma be_bytes_zero: "be_bytes len 0 = replicate len 0"
  by (induction len) (simp_all add: replicate_append_same)

lemma be_bytes_bn_read_bin: "be_bytes (length bs) (bn_read_bin bs (length bs)) = bs"
proof (induction bs rule: rev_induct)
  case Nil
  show ?case by simp
next
  case (snoc b bs)
  have lt: "unat b < 256"
    using unsigned_less [of b, where ?'a = nat] by simp
  have "bn_read_bin (bs @ [b]) (length (bs @ [b])) = bn_read_bin bs (length bs) * 256 + unat b"
    using bn_read_bin_snoc [of bs b] by simp
  then show ?case
    using snoc.IH lt by simp
qed

subsection \<open>A key in the cell allocated last\<close>

lemma cell_fresh [simp]: "cell (s @ [c]) (length s) = c"
  by (simp add: cell_def)

lemma cell_old [simp]: "a < length s \<Longrightarrow> cell (s @ [c]) a = cell s a"
  by (simp add: cell_def nth_append)

lemma load_fresh [simp]: "load (s @ [Some v]) \<lparr>keydata = Some (length s)\<rparr> = Inr v"
  by (simp add: load_def)

lemma modify_fresh [simp]:
  "modify (s @ [Some v]) \<lparr>keydata = Some (length s)\<rparr> f = Inr (s @ [Some (f v)])"
  by (simp add: modify_def)

lemma Deallocate_fresh [simp]:
  "DeallocateKeyData (s @ [c]) \<lparr>keydata = Some (length s)\<rparr> = (\<lparr>keydata = None\<rparr>, s @ [None])"
  by (simp add: DeallocateKeyData_def)

text \<open>What \<open>FromBytes\<close> computes on 32 bytes, in each mode.\<close>

lemma FromBytes_modOrder:
  "length bytes = PRIVATE_KEY_SIZE \<Longrightarrow>
   FromBytes s bytes True =
     (Inr \<lparr>keydata = Some (length s)\<rparr>,
      s @ [Some (bn_read_bin bytes PRIVATE_KEY_SIZE mod g1_get_ord)])"
  by (simp add: FromBytes_def AllocateKeyData_def bn_mod_basic_def)

lemma FromBytes_strict:
  "length bytes = PRIVATE_KEY_SIZE \<Longrightarrow>
   FromBytes s bytes False =
     (if g1_get_ord < bn_read_bin bytes PRIVATE_KEY_SIZE
      then (Inl err_not_less_than_order, s @ [None])
      else (Inr \<lparr>keydata = Some (length s)\<rparr>, s @ [Some (bn_read_bin bytes PRIVATE_KEY_SIZE)]))"
  by (simp add: FromBytes_def AllocateKeyData_def bn_cmp_def RLC_LT_def RLC_EQ_def RLC_GT_def)

lemma FromBytes_at_order:
  "FromBytes [] order_bytes False = (Inr \<lparr>keydata = Some 0\<rparr>, [Some g1_get_ord])"
  using FromBytes_strict [OF order_bytes_length, of "[]"] by (simp add: order_bytes_value)

lemma Serialize_vec_fresh:
  "Serialize_vec (s @ [Some v]) \<lparr>keydata = Some (length s)\<rparr> =
     (if 256 ^ PRIVATE_KEY_SIZE \<le> v then Inl relic_no_buffer
      else Inr (be_bytes PRIVATE_KEY_SIZE v))"
  by (simp add: Serialize_vec_def Serialize_def CheckKeyData_def bn_write_bin_def)

subsection \<open>Decoding: the bound on the key\<close>

text \<open>
  Two parts of what the specification says of decoding do hold: in the strict mode a
  buffer whose value exceeds the group order is refused, and the store keeps no key; in the
  reducing mode 32 bytes of any value give a key.
\<close>

lemma FromBytes_above_order:
  "length bytes = PRIVATE_KEY_SIZE \<Longrightarrow> g1_get_ord < bn_read_bin bytes PRIVATE_KEY_SIZE \<Longrightarrow>
   FromBytes s bytes False = (Inl err_not_less_than_order, s @ [None])"
  by (simp add: FromBytes_strict)

lemma FromBytes_modOrder_succeeds:
  "length bytes = PRIVATE_KEY_SIZE \<Longrightarrow> \<exists>k s'. FromBytes s bytes True = (Inr k, s')"
  by (simp add: FromBytes_modOrder)

text \<open>
  C1. The strict mode is to refuse every 32-byte buffer whose value is at least the group
  order. The source compares with \<^verbatim>\<open>bn_cmp(...) > 0\<close>, so the 32 bytes of the group order
  itself are accepted: the call returns a key, whose scalar is the group order.
\<close>

theorem FromBytes_accepts_group_order:
  "length order_bytes = PRIVATE_KEY_SIZE
   \<and> bn_read_bin order_bytes PRIVATE_KEY_SIZE = g1_get_ord
   \<and> FromBytes [] order_bytes False = (Inr \<lparr>keydata = Some 0\<rparr>, [Some g1_get_ord])
   \<and> fst (FromBytes [] order_bytes False) \<noteq> Inl err_not_less_than_order"
  by (simp add: order_bytes_length order_bytes_value FromBytes_at_order)

text \<open>
  C2. Invariant I1 is to hold of every key that an operation produces. The key that the
  strict mode returns on the bytes of the group order has its storage present and breaks
  the invariant.
\<close>

theorem FromBytes_breaks_I1:
  "(case FromBytes [] order_bytes False of
      (Inl e, s) \<Rightarrow> False
    | (Inr k, s) \<Rightarrow> load s k = Inr g1_get_ord \<and> \<not> I1 s k)"
  by (simp add: FromBytes_at_order I1_def load_def cell_def)

subsection \<open>Decoding and encoding\<close>

text \<open>
  C3. For every buffer of exactly 32 bytes whose big-endian value is below the group order,
  decoding in the strict mode and encoding the key returns the buffer.
\<close>

theorem FromBytes_Serialize_roundtrip:
  assumes "length b = PRIVATE_KEY_SIZE" and "bn_read_bin b PRIVATE_KEY_SIZE < g1_get_ord"
  shows "FromBytes_then_Serialize s b False = Inr b"
proof -
  let ?v = "bn_read_bin b PRIVATE_KEY_SIZE"
  have fits: "?v < 256 ^ PRIVATE_KEY_SIZE"
    using assms(2) g1_get_ord_fits by simp
  have "be_bytes PRIVATE_KEY_SIZE ?v = b"
    using be_bytes_bn_read_bin [of b] assms(1) by simp
  then show ?thesis
    using assms fits
    by (simp add: FromBytes_then_Serialize_def FromBytes_strict Serialize_vec_fresh)
qed

theorem FromBytes_Serialize_roundtrip_witness:
  "length two_bytes = PRIVATE_KEY_SIZE
   \<and> bn_read_bin two_bytes PRIVATE_KEY_SIZE < g1_get_ord
   \<and> FromBytes_then_Serialize [] two_bytes False = Inr two_bytes"
proof -
  have a: "length two_bytes = PRIVATE_KEY_SIZE"
    by (simp add: two_bytes_def PRIVATE_KEY_SIZE_def)
  have b: "bn_read_bin two_bytes PRIVATE_KEY_SIZE < g1_get_ord"
    by (simp add: two_bytes_def PRIVATE_KEY_SIZE_def bn_read_bin_def g1_get_ord_def)
  show ?thesis
    using a b FromBytes_Serialize_roundtrip [OF a b, of "[]"] by simp
qed

text \<open>
  C4. For every buffer of 32 bytes, of any value, decoding in the reducing mode and
  encoding the key returns 32 bytes, the big-endian encoding of the value modulo the group
  order.
\<close>

theorem FromBytes_modOrder_Serialize:
  assumes "length b = PRIVATE_KEY_SIZE"
  shows "\<exists>out. FromBytes_then_Serialize s b True = Inr out
           \<and> out = be_bytes PRIVATE_KEY_SIZE (bn_read_bin b PRIVATE_KEY_SIZE mod g1_get_ord)
           \<and> length out = PRIVATE_KEY_SIZE
           \<and> bn_read_bin out PRIVATE_KEY_SIZE = bn_read_bin b PRIVATE_KEY_SIZE mod g1_get_ord"
proof -
  let ?v = "bn_read_bin b PRIVATE_KEY_SIZE mod g1_get_ord"
  have "?v < g1_get_ord"
    using g1_get_ord_pos by simp
  then have fits: "?v < 256 ^ PRIVATE_KEY_SIZE"
    using g1_get_ord_fits by simp
  have "bn_read_bin (be_bytes PRIVATE_KEY_SIZE ?v) PRIVATE_KEY_SIZE = ?v"
    using fits by (simp add: bn_read_bin_be_bytes)
  then show ?thesis
    using assms fits
    by (simp add: FromBytes_then_Serialize_def FromBytes_modOrder Serialize_vec_fresh)
qed

theorem FromBytes_modOrder_Serialize_witness:
  "length order_bytes = PRIVATE_KEY_SIZE
   \<and> FromBytes_then_Serialize [] order_bytes True = Inr (replicate PRIVATE_KEY_SIZE 0)
   \<and> bn_read_bin (replicate PRIVATE_KEY_SIZE 0) PRIVATE_KEY_SIZE
       = bn_read_bin order_bytes PRIVATE_KEY_SIZE mod g1_get_ord"
  using FromBytes_modOrder_Serialize [OF order_bytes_length, of "[]"]
  by (simp add: order_bytes_length order_bytes_value be_bytes_zero)

subsection \<open>Aggregation\<close>

lemma load_Inr_iff: "load s k = Inr v \<longleftrightarrow> (\<exists>a. keydata k = Some a \<and> a < length s \<and> s ! a = Some v)"
  by (auto simp: load_def cell_def split: option.splits)

lemma load_append: "load s k = Inr v \<Longrightarrow> load (s @ t) k = Inr v"
  by (auto simp: load_Inr_iff nth_append)

lemma load_CheckKeyData: "load s k = Inr v \<Longrightarrow> CheckKeyData k = Inr ()"
  by (auto simp: load_Inr_iff CheckKeyData_def)

lemma PrivateKey_copy_present:
  "load s k = Inr v \<Longrightarrow>
   PrivateKey_copy s k = (Inr \<lparr>keydata = Some (length s)\<rparr>, s @ [Some v])"
  by (simp add: PrivateKey_copy_def load_CheckKeyData AllocateKeyData_def bn_copy_def load_append)

lemma Aggregate_loop_present:
  "\<forall>p\<in>set ps. \<exists>v. load s p = Inr v \<Longrightarrow>
   Aggregate_loop order \<lparr>keydata = Some (length s)\<rparr> ps (s @ [Some acc]) =
     (Inr (), s @ [Some (foldl (\<lambda>a p. (a + scalar s p) mod order) acc ps)])"
proof (induction ps arbitrary: acc)
  case Nil
  show ?case by simp
next
  case (Cons p ps)
  from Cons.prems obtain b where b: "load s p = Inr b" by auto
  have rest: "\<forall>p\<in>set ps. \<exists>v. load s p = Inr v" using Cons.prems by simp
  show ?case
    using b Cons.IH [OF rest]
    by (simp add: load_CheckKeyData load_append scalar_def bn_add_def bn_mod_basic_def)
qed

lemma foldl_mod_sum:
  fixes f :: "'a \<Rightarrow> nat"
  shows "foldl (\<lambda>a p. (a + f p) mod m) acc ps mod m = (acc + sum_list (map f ps)) mod m"
proof (induction ps arbitrary: acc)
  case Nil
  show ?case by simp
next
  case (Cons p ps)
  show ?case
    by (simp add: Cons.IH mod_add_left_eq add.assoc)
qed

lemma foldl_mod_less:
  fixes f :: "'a \<Rightarrow> nat"
  shows "acc < m \<Longrightarrow> foldl (\<lambda>a p. (a + f p) mod m) acc ps < m"
  by (induction ps arbitrary: acc) simp_all

lemma foldl_mod_sum_eq:
  fixes f :: "'a \<Rightarrow> nat"
  assumes "acc < m"
  shows "foldl (\<lambda>a p. (a + f p) mod m) acc ps = (acc + sum_list (map f ps)) mod m"
  using foldl_mod_sum [of f m acc ps] foldl_mod_less [OF assms, of f ps] by simp

lemma Aggregate_present:
  assumes "\<forall>p\<in>set (k # ks). \<exists>v. load s p = Inr v"
  shows "Aggregate s (k # ks) =
    (Inr \<lparr>keydata = Some (length s)\<rparr>,
     s @ [Some (foldl (\<lambda>a p. (a + scalar s p) mod g1_get_ord) (scalar s k) ks)])"
proof -
  from assms obtain v where v: "load s k = Inr v" by auto
  have rest: "\<forall>p\<in>set ks. \<exists>v. load s p = Inr v" using assms by simp
  have sc: "scalar s k = v" using v by (simp add: scalar_def)
  show ?thesis
    using v sc Aggregate_loop_present [OF rest, of g1_get_ord v]
    by (simp add: Aggregate_def PrivateKey_copy_present CheckKeyData_def)
qed

lemma valid_key_load: "valid_key s k \<Longrightarrow> load s k = Inr (scalar s k) \<and> scalar s k < g1_get_ord"
  by (simp add: valid_key_def scalar_def split: sum.splits)

lemma Aggregate_valid:
  assumes ne: "keys \<noteq> []" and valid: "\<forall>k\<in>set keys. valid_key s k"
  shows "Aggregate s keys =
    (Inr \<lparr>keydata = Some (length s)\<rparr>,
     s @ [Some (sum_list (map (scalar s) keys) mod g1_get_ord)])"
proof -
  from ne obtain k ks where keys: "keys = k # ks" by (cases keys) auto
  have present: "\<forall>p\<in>set (k # ks). \<exists>v. load s p = Inr v"
    using valid keys valid_key_load by blast
  have "scalar s k < g1_get_ord"
    using valid keys valid_key_load by simp
  then have "foldl (\<lambda>a p. (a + scalar s p) mod g1_get_ord) (scalar s k) ks
      = (scalar s k + sum_list (map (scalar s) ks)) mod g1_get_ord"
    by (rule foldl_mod_sum_eq)
  then show ?thesis
    using Aggregate_present [OF present] keys by simp
qed

lemma sum_list_scalar_mset:
  "mset keys' = mset keys \<Longrightarrow> sum_list (map f keys') = sum_list (map (f :: 'a \<Rightarrow> nat) keys)"
proof -
  assume "mset keys' = mset keys"
  then have "mset (map f keys') = mset (map f keys)" by simp
  then have "sum_mset (mset (map f keys')) = sum_mset (mset (map f keys))" by (rule arg_cong)
  then show ?thesis by (simp only: sum_mset_sum_list)
qed

text \<open>
  C5. \<open>Aggregate\<close> on no key signals the length error. On a non-empty list of valid keys
  it returns a key in a cell that was not allocated before, whose scalar is the sum of the
  scalars of the keys modulo the group order, which is what the left fold from the first
  key, reducing after each addition, computes; the cells of the store before the call,
  hence the scalars of the keys, are unchanged; every permutation of the keys gives the
  same result; and the aggregate of one key compares equal to that key.
\<close>

theorem Aggregate_modular_sum:
  assumes ne: "keys \<noteq> []" and valid: "\<forall>k\<in>set keys. valid_key s k"
  shows
   "Aggregate s [] = (Inl err_no_keys, s)
    \<and> Aggregate s keys =
        (Inr \<lparr>keydata = Some (length s)\<rparr>,
         s @ [Some (sum_list (map (scalar s) keys) mod g1_get_ord)])
    \<and> sum_list (map (scalar s) keys) mod g1_get_ord =
        foldl (\<lambda>acc p. (acc + scalar s p) mod g1_get_ord) (scalar s (hd keys)) (tl keys)
    \<and> cell s (length s) = None
    \<and> take (length s) (snd (Aggregate s keys)) = s
    \<and> (\<forall>k\<in>set keys. load (snd (Aggregate s keys)) k = load s k)
    \<and> (\<forall>keys'. mset keys' = mset keys \<longrightarrow> Aggregate s keys' = Aggregate s keys)
    \<and> (\<forall>k. keys = [k] \<longrightarrow>
          PrivateKey_equal (snd (Aggregate s keys)) \<lparr>keydata = Some (length s)\<rparr> k = Inr True)"
proof -
  note agg = Aggregate_valid [OF ne valid]
  have empty: "Aggregate s [] = (Inl err_no_keys, s)"
    by (simp add: Aggregate_def)
  have fold: "sum_list (map (scalar s) keys) mod g1_get_ord =
        foldl (\<lambda>acc p. (acc + scalar s p) mod g1_get_ord) (scalar s (hd keys)) (tl keys)"
  proof -
    from ne obtain k ks where keys: "keys = k # ks" by (cases keys) auto
    have "scalar s k < g1_get_ord"
      using valid keys valid_key_load by simp
    then show ?thesis
      using foldl_mod_sum_eq [of "scalar s k" g1_get_ord "scalar s" ks] keys by simp
  qed
  have fresh: "cell s (length s) = None"
    by (simp add: cell_def)
  have prefix: "take (length s) (snd (Aggregate s keys)) = s"
    by (simp add: agg)
  have same: "\<forall>k\<in>set keys. load (snd (Aggregate s keys)) k = load s k"
    using valid valid_key_load load_append by (simp add: agg)
  have perm: "\<forall>keys'. mset keys' = mset keys \<longrightarrow> Aggregate s keys' = Aggregate s keys"
  proof (intro allI impI)
    fix keys'
    assume m: "mset keys' = mset keys"
    then have "set keys' = set keys" by (rule mset_eq_setD)
    moreover have "keys' \<noteq> []" using m ne by auto
    ultimately have "Aggregate s keys' =
      (Inr \<lparr>keydata = Some (length s)\<rparr>,
       s @ [Some (sum_list (map (scalar s) keys') mod g1_get_ord)])"
      using valid by (intro Aggregate_valid) simp_all
    then show "Aggregate s keys' = Aggregate s keys"
      using sum_list_scalar_mset [OF m, of "scalar s"] by (simp add: agg)
  qed
  have single: "\<forall>k. keys = [k] \<longrightarrow>
          PrivateKey_equal (snd (Aggregate s keys)) \<lparr>keydata = Some (length s)\<rparr> k = Inr True"
  proof (intro allI impI)
    fix k
    assume k: "keys = [k]"
    then have v: "load s k = Inr (scalar s k)" and lt: "scalar s k < g1_get_ord"
      using valid valid_key_load by simp_all
    have "snd (Aggregate s keys) = s @ [Some (scalar s k)]"
      using agg k lt by simp
    then show "PrivateKey_equal (snd (Aggregate s keys)) \<lparr>keydata = Some (length s)\<rparr> k = Inr True"
      using load_append [OF v, of "[Some (scalar s k)]"] load_CheckKeyData [OF v]
      by (simp add: PrivateKey_equal_def CheckKeyData_def bn_cmp_def RLC_EQ_def)
  qed
  show ?thesis
    using empty agg fold fresh prefix same perm single by blast
qed

theorem Aggregate_modular_sum_witness:
  "[key_at 0, key_at 2] \<noteq> []
   \<and> valid_key example_store (key_at 0) \<and> valid_key example_store (key_at 2)
   \<and> Aggregate example_store [] = (Inl err_no_keys, example_store)
   \<and> Aggregate example_store [key_at 0, key_at 2] = (Inr (key_at 3), example_store @ [Some 1])
   \<and> Aggregate example_store [key_at 2, key_at 0] = Aggregate example_store [key_at 0, key_at 2]
   \<and> load (snd (Aggregate example_store [key_at 0, key_at 2])) (key_at 0) = Inr (g1_get_ord - 1)
   \<and> load (snd (Aggregate example_store [key_at 0, key_at 2])) (key_at 2) = Inr 2"
proof -
  have ne: "[key_at 0, key_at 2] \<noteq> []"
    by simp
  have l0: "load example_store (key_at 0) = Inr (g1_get_ord - 1)"
    by (simp add: load_def cell_def example_store_def key_at_def)
  have l2: "load example_store (key_at 2) = Inr 2"
    by (simp add: load_def cell_def example_store_def key_at_def)
  have v0: "valid_key example_store (key_at 0)"
    using l0 by (simp add: valid_key_def g1_get_ord_def)
  have v2: "valid_key example_store (key_at 2)"
    using l2 by (simp add: valid_key_def g1_get_ord_def)
  have valid: "\<forall>k\<in>set [key_at 0, key_at 2]. valid_key example_store k"
    using v0 v2 by simp
  have sum: "sum_list (map (scalar example_store) [key_at 0, key_at 2]) mod g1_get_ord = 1"
    using l0 l2 by (simp add: scalar_def g1_get_ord_def)
  have len: "length example_store = 3"
    by (simp add: example_store_def)
  have perm: "mset [key_at 2, key_at 0] = mset [key_at 0, key_at 2]"
    by (simp add: add_mset_commute)
  note th = Aggregate_modular_sum [OF ne valid]
  have e: "Aggregate example_store [] = (Inl err_no_keys, example_store)"
    using th by blast
  have a: "Aggregate example_store [key_at 0, key_at 2] = (Inr (key_at 3), example_store @ [Some 1])"
    using th sum len by (simp add: key_at_def)
  have p: "Aggregate example_store [key_at 2, key_at 0] = Aggregate example_store [key_at 0, key_at 2]"
    using th perm by blast
  have u: "\<forall>k\<in>set [key_at 0, key_at 2].
      load (snd (Aggregate example_store [key_at 0, key_at 2])) k = load example_store k"
    using th by blast
  show ?thesis
    using ne v0 v2 e a p u l0 l2 by simp
qed

subsection \<open>Invariant I1 on the other operations\<close>

text \<open>
  Apart from the strict mode of \<open>FromBytes\<close> at the group order, the operations that make or
  change a key keep invariant I1.
\<close>

lemma I1_default: "I1 (snd (PrivateKey_default s)) (fst (PrivateKey_default s))"
  by (simp add: PrivateKey_default_def AllocateKeyData_def I1_def bn_zero_def g1_get_ord_pos)

lemma I1_FromBytes_modOrder:
  "FromBytes s bytes True = (Inr k, s') \<Longrightarrow> I1 s' k"
proof (cases "length bytes = PRIVATE_KEY_SIZE")
  case True
  assume "FromBytes s bytes True = (Inr k, s')"
  then show ?thesis
    using True g1_get_ord_pos by (auto simp: FromBytes_modOrder I1_def)
next
  case False
  assume "FromBytes s bytes True = (Inr k, s')"
  then show ?thesis
    using False by (simp add: FromBytes_def)
qed

lemma I1_FromBytes_strict_below:
  "bn_read_bin bytes PRIVATE_KEY_SIZE \<noteq> g1_get_ord \<Longrightarrow> FromBytes s bytes False = (Inr k, s') \<Longrightarrow> I1 s' k"
proof (cases "length bytes = PRIVATE_KEY_SIZE")
  case True
  assume "bn_read_bin bytes PRIVATE_KEY_SIZE \<noteq> g1_get_ord" "FromBytes s bytes False = (Inr k, s')"
  then show ?thesis
    using True by (auto simp: FromBytes_strict I1_def split: if_splits)
next
  case False
  assume "FromBytes s bytes False = (Inr k, s')"
  then show ?thesis
    using False by (simp add: FromBytes_def)
qed

lemma I1_copy:
  "valid_key s k \<Longrightarrow> PrivateKey_copy s k = (Inr k', s') \<Longrightarrow> I1 s' k' \<and> I1 s' k"
  using valid_key_load [of s k] load_append [of s k "scalar s k" "[Some (scalar s k)]"]
  by (auto simp: PrivateKey_copy_present I1_def load_def split: option.splits)

lemma I1_move: "I1 s k \<Longrightarrow> I1 s (fst (PrivateKey_move k)) \<and> I1 s (snd (PrivateKey_move k))"
  by (simp add: PrivateKey_move_def I1_def)

lemma I1_Aggregate:
  "keys \<noteq> [] \<Longrightarrow> \<forall>k\<in>set keys. valid_key s k \<Longrightarrow> Aggregate s keys = (Inr k', s') \<Longrightarrow> I1 s' k'"
  using g1_get_ord_pos by (auto simp: Aggregate_valid I1_def)

lemma I1_assign_copy:
  "valid_key s other \<Longrightarrow> assign_copy s this other = (Inr (), s') \<Longrightarrow> I1 s' this"
  using valid_key_load [of s other]
  by (auto simp: assign_copy_def bn_copy_def modify_def I1_def cell_def
      split: sum.splits option.splits if_splits)

subsection \<open>A key that was moved from\<close>

lemma moved_absent [simp]: "keydata (snd (PrivateKey_move k)) = None"
  by (simp add: PrivateKey_move_def)

lemma moved_same [simp]: "fst (PrivateKey_move k) = k"
  by (simp add: PrivateKey_move_def)

lemma CheckKeyData_absent [simp]: "keydata k = None \<Longrightarrow> CheckKeyData k = Inl err_not_initialized"
  by (simp add: CheckKeyData_def)

text \<open>
  Move assignment: between two objects the assigned key takes the pointer and the other
  key is left with null; of an object to itself it leaves the key with null, its storage
  released.
\<close>

lemma assign_move_distinct:
  "assign_move s this other False =
     ((\<lparr>keydata = keydata other\<rparr>, other\<lparr>keydata := None\<rparr>), snd (DeallocateKeyData s this))"
  by (simp add: assign_move_def DeallocateKeyData_def Let_def split: option.splits)

lemma assign_move_self:
  "assign_move s this other True =
     ((\<lparr>keydata = None\<rparr>, \<lparr>keydata = None\<rparr>), snd (DeallocateKeyData s this))"
  by (simp add: assign_move_def DeallocateKeyData_def Let_def split: option.splits)

lemma owned_cases: "owned s k \<Longrightarrow> keydata k = None \<or> (\<exists>v. load s k = Inr v)"
  by (auto simp: owned_def load_def split: option.splits)

lemma Aggregate_loop_absent:
  assumes "\<forall>p\<in>set pre. \<exists>v. load s p = Inr v" and "keydata q = None"
  shows "\<exists>x. Aggregate_loop order \<lparr>keydata = Some (length s)\<rparr> (pre @ q # post) (s @ [Some acc]) =
     (Inl err_not_initialized, s @ [Some x])"
  using assms(1)
proof (induction pre arbitrary: acc)
  case Nil
  show ?case using assms(2) by simp
next
  case (Cons p pre)
  from Cons.prems obtain b where b: "load s p = Inr b" by auto
  have rest: "\<forall>p\<in>set pre. \<exists>v. load s p = Inr v" using Cons.prems by simp
  show ?case
    using b Cons.IH [OF rest]
    by (simp add: load_CheckKeyData load_append bn_add_def bn_mod_basic_def)
qed

lemma cell_released: "cell (s @ [None]) = cell s"
  by (rule ext) (simp add: cell_def nth_append)

lemma Aggregate_absent:
  assumes own: "\<forall>p\<in>set keys. owned s p" and mem: "q \<in> set keys" and q: "keydata q = None"
  shows "fst (Aggregate s keys) = Inl err_not_initialized \<and> cell (snd (Aggregate s keys)) = cell s"
proof -
  have "\<exists>p\<in>set keys. keydata p = None" using mem q by blast
  then obtain pre z post where keys: "keys = pre @ z # post" and z: "keydata z = None"
    and pre: "\<forall>p\<in>set pre. keydata p \<noteq> None"
    using split_list_first_prop [of keys "\<lambda>p. keydata p = None"] by blast
  have present: "\<forall>p\<in>set pre. \<exists>v. load s p = Inr v"
    using pre own keys owned_cases by fastforce
  show ?thesis
  proof (cases pre)
    case Nil
    then show ?thesis
      using keys z by (simp add: Aggregate_def PrivateKey_copy_def)
  next
    case (Cons first rest)
    from present Cons obtain v where v: "load s first = Inr v" by auto
    have rest_present: "\<forall>p\<in>set rest. \<exists>v. load s p = Inr v" using present Cons by simp
    from Aggregate_loop_absent [OF rest_present z, of g1_get_ord post v]
    obtain x where "Aggregate_loop g1_get_ord \<lparr>keydata = Some (length s)\<rparr> (rest @ z # post) (s @ [Some v]) =
     (Inl err_not_initialized, s @ [Some x])" by blast
    then have "Aggregate s keys = (Inl err_not_initialized, s @ [None])"
      using keys Cons v
      by (simp add: Aggregate_def PrivateKey_copy_present CheckKeyData_def)
    then show ?thesis
      by (simp add: cell_released)
  qed
qed

text \<open>
  C6, amended. After the move constructor has moved a key \<open>k\<close> into a new key, every
  operation that reads the scalar of \<open>k\<close> (\<open>GetG1Element\<close>, \<open>GetG2Element\<close>, the scaling
  operators and \<open>GetG2Power\<close>, \<open>Aggregate\<close> on a list that holds \<open>k\<close>, \<open>IsZero\<close>, equality and
  inequality on either side, \<open>Serialize\<close> into a buffer that is not null, \<open>SignG2\<close>, the
  copy constructor and copy assignment) signals the error of the uninitialized key. The
  operations that take the store leave it as it was, \<open>Aggregate\<close> but for a cell that it
  allocates and releases, so that every address reads as before; the others do not write
  to it. The new key holds the pointer of \<open>k\<close>, so that its public elements, its
  serialization, its signatures and its zero test are those of \<open>k\<close> before the move.
\<close>

theorem moved_from_key:
  fixes c :: "('g1, 'g2) curve"
  shows
   "GetG1Element c s (snd (PrivateKey_move k)) = Inl err_not_initialized
    \<and> GetG2Element c s (snd (PrivateKey_move k)) = Inl err_not_initialized
    \<and> G1Element_times c s a1 (snd (PrivateKey_move k)) = Inl err_not_initialized
    \<and> PrivateKey_times_G1 c s (snd (PrivateKey_move k)) a1 = Inl err_not_initialized
    \<and> G2Element_times c s a2 (snd (PrivateKey_move k)) = Inl err_not_initialized
    \<and> PrivateKey_times_G2 c s (snd (PrivateKey_move k)) a2 = Inl err_not_initialized
    \<and> GetG2Power c s (snd (PrivateKey_move k)) a2 = Inl err_not_initialized
    \<and> (\<forall>keys. snd (PrivateKey_move k) \<in> set keys \<and> (\<forall>p\<in>set keys. owned s p) \<longrightarrow>
          fst (Aggregate s keys) = Inl err_not_initialized
          \<and> cell (snd (Aggregate s keys)) = cell s)
    \<and> IsZero s (snd (PrivateKey_move k)) = Inl err_not_initialized
    \<and> PrivateKey_equal s (snd (PrivateKey_move k)) other = Inl err_not_initialized
    \<and> PrivateKey_equal s other (snd (PrivateKey_move k)) = Inl err_not_initialized
    \<and> PrivateKey_not_equal s (snd (PrivateKey_move k)) other = Inl err_not_initialized
    \<and> PrivateKey_not_equal s other (snd (PrivateKey_move k)) = Inl err_not_initialized
    \<and> Serialize s (snd (PrivateKey_move k)) (Some bin) = Inl err_not_initialized
    \<and> Serialize_vec s (snd (PrivateKey_move k)) = Inl err_not_initialized
    \<and> SignG2 c s (snd (PrivateKey_move k)) msg dst = Inl err_not_initialized
    \<and> PrivateKey_copy s (snd (PrivateKey_move k)) = (Inl err_not_initialized, s)
    \<and> assign_copy s other (snd (PrivateKey_move k)) = (Inl err_not_initialized, s)
    \<and> keydata (fst (PrivateKey_move k)) = keydata k
    \<and> GetG1Element c s (fst (PrivateKey_move k)) = GetG1Element c s k
    \<and> GetG2Element c s (fst (PrivateKey_move k)) = GetG2Element c s k
    \<and> Serialize s (fst (PrivateKey_move k)) buffer = Serialize s k buffer
    \<and> Serialize_vec s (fst (PrivateKey_move k)) = Serialize_vec s k
    \<and> SignG2 c s (fst (PrivateKey_move k)) msg dst = SignG2 c s k msg dst
    \<and> IsZero s (fst (PrivateKey_move k)) = IsZero s k"
proof -
  let ?k = "snd (PrivateKey_move k)"
  have absent: "keydata ?k = None" by simp
  have agg: "\<forall>keys. ?k \<in> set keys \<and> (\<forall>p\<in>set keys. owned s p) \<longrightarrow>
          fst (Aggregate s keys) = Inl err_not_initialized
          \<and> cell (snd (Aggregate s keys)) = cell s"
    using Aggregate_absent [OF _ _ absent] by blast
  have eq1: "PrivateKey_equal s ?k other = Inl err_not_initialized"
    by (simp add: PrivateKey_equal_def)
  have eq2: "PrivateKey_equal s other ?k = Inl err_not_initialized"
    by (simp add: PrivateKey_equal_def) (simp add: CheckKeyData_def)
  have ac: "assign_copy s other ?k = (Inl err_not_initialized, s)"
    by (simp add: assign_copy_def) (simp add: CheckKeyData_def)
  have ops: "GetG1Element c s ?k = Inl err_not_initialized
    \<and> GetG2Element c s ?k = Inl err_not_initialized
    \<and> G1Element_times c s a1 ?k = Inl err_not_initialized
    \<and> PrivateKey_times_G1 c s ?k a1 = Inl err_not_initialized
    \<and> G2Element_times c s a2 ?k = Inl err_not_initialized
    \<and> PrivateKey_times_G2 c s ?k a2 = Inl err_not_initialized
    \<and> GetG2Power c s ?k a2 = Inl err_not_initialized
    \<and> IsZero s ?k = Inl err_not_initialized
    \<and> Serialize s ?k (Some bin) = Inl err_not_initialized
    \<and> Serialize_vec s ?k = Inl err_not_initialized
    \<and> SignG2 c s ?k msg dst = Inl err_not_initialized
    \<and> PrivateKey_copy s ?k = (Inl err_not_initialized, s)"
    by (simp add: GetG1Element_def GetG2Element_def G1Element_times_def PrivateKey_times_G1_def
        G2Element_times_def PrivateKey_times_G2_def GetG2Power_def IsZero_def
        Serialize_def Serialize_vec_def SignG2_def PrivateKey_copy_def)
  have ne: "PrivateKey_not_equal s ?k other = Inl err_not_initialized
    \<and> PrivateKey_not_equal s other ?k = Inl err_not_initialized"
    by (simp add: PrivateKey_not_equal_def eq1 eq2)
  show ?thesis
    using agg eq1 eq2 ac ops ne by simp
qed

theorem moved_from_key_witness:
  "snd (PrivateKey_move (key_at 0)) \<in> set [key_at 2, snd (PrivateKey_move (key_at 0))]
   \<and> owned example_store (key_at 2)
   \<and> owned example_store (snd (PrivateKey_move (key_at 0)))
   \<and> fst (Aggregate example_store [key_at 2, snd (PrivateKey_move (key_at 0))]) = Inl err_not_initialized
   \<and> cell (snd (Aggregate example_store [key_at 2, snd (PrivateKey_move (key_at 0))])) = cell example_store
   \<and> GetG1Element ref_curve example_store (snd (PrivateKey_move (key_at 0))) = Inl err_not_initialized
   \<and> Serialize_vec example_store (snd (PrivateKey_move (key_at 0))) = Inl err_not_initialized
   \<and> GetG1Element ref_curve example_store (fst (PrivateKey_move (key_at 0)))
       = GetG1Element ref_curve example_store (key_at 0)
   \<and> Serialize_vec example_store (fst (PrivateKey_move (key_at 0)))
       = Serialize_vec example_store (key_at 0)"
proof -
  let ?k = "snd (PrivateKey_move (key_at 0))"
  have mem: "?k \<in> set [key_at 2, ?k]"
    by simp
  have o1: "owned example_store (key_at 2)"
    by (simp add: owned_def key_at_def cell_def example_store_def)
  have o2: "owned example_store ?k"
    by (simp add: owned_def)
  have own: "\<forall>p\<in>set [key_at 2, ?k]. owned example_store p"
    using o1 o2 by simp
  note th = moved_from_key [where c = ref_curve and s = example_store and k = "key_at 0"]
  have agg: "fst (Aggregate example_store [key_at 2, ?k]) = Inl err_not_initialized
     \<and> cell (snd (Aggregate example_store [key_at 2, ?k])) = cell example_store"
    using th mem own by blast
  show ?thesis
    using mem o1 o2 agg th by blast
qed

text \<open>
  C6 as stated fails for \<open>Serialize\<close>: called with a null buffer on the key that was moved
  from, it signals the error of the invalid buffer, since it tests the buffer first.
\<close>

theorem moved_from_key_null_buffer:
  "Serialize example_store (snd (PrivateKey_move (key_at 0))) None = Inl err_buffer_invalid
   \<and> Serialize example_store (snd (PrivateKey_move (key_at 0))) None \<noteq> Inl err_not_initialized"
  by (simp add: Serialize_def err_buffer_invalid_def err_not_initialized_def)

subsection \<open>Public elements\<close>

lemma valid_key_CheckKeyData: "valid_key s k \<Longrightarrow> CheckKeyData k = Inr ()"
  using valid_key_load load_CheckKeyData by blast

lemma example_key_2: "load example_store (key_at 2) = Inr 2"
  by (simp add: load_def cell_def example_store_def key_at_def)

lemma example_key_2_valid: "valid_key example_store (key_at 2)"
  using example_key_2 by (simp add: valid_key_def g1_get_ord_def)

lemma example_key_2_scalar: "scalar example_store (key_at 2) = 2"
  using example_key_2 by (simp add: scalar_def)

text \<open>
  C8. For every valid key, \<open>GetG1Element\<close> returns the generator of the first group scaled
  by the scalar of the key, which is also what the scaling operator returns on the
  generator element and the key, in either order of the operands; and likewise
  \<open>GetG2Element\<close> in the second group.
\<close>

theorem GetElement_is_Generator_times:
  fixes c :: "('g1, 'g2) curve"
  assumes "valid_key s k"
  shows
   "GetG1Element c s k = Inr (G1_FromNative (g1_mul c (g1_get_gen c) (scalar s k)))
    \<and> G1Element_times c s (G1_Generator c) k = GetG1Element c s k
    \<and> PrivateKey_times_G1 c s k (G1_Generator c) = GetG1Element c s k
    \<and> GetG2Element c s k = Inr (G2_FromNative (g2_mul c (g2_get_gen c) (scalar s k)))
    \<and> G2Element_times c s (G2_Generator c) k = GetG2Element c s k
    \<and> PrivateKey_times_G2 c s k (G2_Generator c) = GetG2Element c s k"
proof -
  have l: "load s k = Inr (scalar s k)"
    using assms valid_key_load by blast
  have chk: "CheckKeyData k = Inr ()"
    using assms by (rule valid_key_CheckKeyData)
  show ?thesis
    by (simp add: GetG1Element_def GetG2Element_def G1Element_times_def G2Element_times_def
        PrivateKey_times_G1_def PrivateKey_times_G2_def G1_Generator_def G2_Generator_def
        g1_mul_gen_def g2_mul_gen_def l chk)
qed

theorem GetElement_is_Generator_times_witness:
  "valid_key example_store (key_at 2)
   \<and> GetG1Element ref_curve example_store (key_at 2) = Inr (G1_FromNative 2)
   \<and> G1Element_times ref_curve example_store (G1_Generator ref_curve) (key_at 2) = Inr (G1_FromNative 2)
   \<and> GetG2Element ref_curve example_store (key_at 2) = Inr (G2_FromNative 2)
   \<and> G2Element_times ref_curve example_store (G2_Generator ref_curve) (key_at 2) = Inr (G2_FromNative 2)"
proof -
  have m: "g1_mul ref_curve (g1_get_gen ref_curve) 2 = 2" "g2_mul ref_curve (g2_get_gen ref_curve) 2 = 2"
    by (simp_all add: ref_curve_def g1_get_ord_def)
  show ?thesis
    using GetElement_is_Generator_times [OF example_key_2_valid, of ref_curve]
    by (simp add: example_key_2_valid example_key_2_scalar m)
qed

subsection \<open>Signing\<close>













subsection \<open>Serialization into a null buffer\<close>

text \<open>
  C10. \<open>Serialize\<close> tests the buffer before the key: on a key whose storage is absent and a
  null buffer, the error is that of the invalid buffer, not that of the uninitialized key.
\<close>

theorem Serialize_null_buffer_first:
  "keydata k = None \<Longrightarrow>
   Serialize s k None = Inl err_buffer_invalid \<and> Serialize s k None \<noteq> Inl err_not_initialized"
  by (simp add: Serialize_def err_buffer_invalid_def err_not_initialized_def)

theorem Serialize_null_buffer_first_witness:
  "keydata (snd (PrivateKey_move \<lparr>keydata = Some 0\<rparr>)) = None
   \<and> Serialize [Some 5] (snd (PrivateKey_move \<lparr>keydata = Some 0\<rparr>)) None = Inl err_buffer_invalid
   \<and> Serialize [Some 5] (snd (PrivateKey_move \<lparr>keydata = Some 0\<rparr>)) None \<noteq> Inl err_not_initialized"
proof -
  have a: "keydata (snd (PrivateKey_move \<lparr>keydata = Some 0\<rparr>)) = None"
    by (simp add: PrivateKey_move_def)
  show ?thesis
    using a Serialize_null_buffer_first [OF a, of "[Some 5]"] by blast
qed

subsection \<open>Input size\<close>

text \<open>
  C7. \<open>FromBytes\<close> on a buffer whose length is not 32 signals the invalid-size error, in both
  modes, and leaves secure memory as it was.
\<close>

theorem FromBytes_invalid_size:
  "length bytes \<noteq> PRIVATE_KEY_SIZE \<Longrightarrow> FromBytes s bytes modOrder = (Inl err_invalid_size, s)"
  by (simp add: FromBytes_def)

theorem FromBytes_invalid_size_witness:
  "length ([] :: byte list) \<noteq> PRIVATE_KEY_SIZE
   \<and> FromBytes [] [] False = (Inl err_invalid_size, [])
   \<and> FromBytes [] [] True = (Inl err_invalid_size, [])
   \<and> length (replicate 31 (7 :: byte)) \<noteq> PRIVATE_KEY_SIZE
   \<and> FromBytes [] (replicate 31 7) False = (Inl err_invalid_size, [])
   \<and> FromBytes [] (replicate 31 7) True = (Inl err_invalid_size, [])
   \<and> length (replicate 33 (7 :: byte)) \<noteq> PRIVATE_KEY_SIZE
   \<and> FromBytes [] (replicate 33 7) False = (Inl err_invalid_size, [])
   \<and> FromBytes [] (replicate 33 7) True = (Inl err_invalid_size, [])"
proof -
  have a: "length ([] :: byte list) \<noteq> PRIVATE_KEY_SIZE"
    by (simp add: PRIVATE_KEY_SIZE_def)
  have b: "length (replicate 31 (7 :: byte)) \<noteq> PRIVATE_KEY_SIZE"
    by (simp add: PRIVATE_KEY_SIZE_def)
  have c: "length (replicate 33 (7 :: byte)) \<noteq> PRIVATE_KEY_SIZE"
    by (simp add: PRIVATE_KEY_SIZE_def)
  show ?thesis
    using a b c
      FromBytes_invalid_size [OF a, of "[]" False] FromBytes_invalid_size [OF a, of "[]" True]
      FromBytes_invalid_size [OF b, of "[]" False] FromBytes_invalid_size [OF b, of "[]" True]
      FromBytes_invalid_size [OF c, of "[]" False] FromBytes_invalid_size [OF c, of "[]" True]
    by simp
qed

end
